theory Spec2Isabelle
  imports Main
begin

section \<open>The feed-to-Twitter pipeline of \<^verbatim>\<open>tweet/main.go\<close>\<close>

text \<open>
  The program reads an RSS feed, and for every item that has no document in the MongoDB
  collection \<^verbatim>\<open>tweets\<close> it posts a tweet and inserts a document. The model follows
  the version of the file in which \<^verbatim>\<open>tweetItem\<close> returns whether it sent the item
  and \<^verbatim>\<open>tweetFeed\<close> counts the items sent. Twitter, MongoDB,
  the feed and the clock are outside the program: they are a parameter of the model, the
  record \<open>env\<close>, whose answers may depend on everything that has happened so far. The
  program's effects are kept in the state: the documents of the collection and the list of
  the calls made, in the order they were made.
\<close>

subsection \<open>Data\<close>

text \<open>A Go \<^verbatim>\<open>error\<close> value, with its message.\<close>

datatype error = Error string

fun message :: "error \<Rightarrow> string" where
  "message (Error m) = m"

text \<open>
  \<^verbatim>\<open>log.Fatal\<close> writes the entry and calls \<^verbatim>\<open>os.Exit(1)\<close>: the process ends there.
  A function that ends so returns \<open>Inl (Fatal m)\<close>, \<open>m\<close> the message logged.
\<close>

datatype fatal = Fatal string

text \<open>The two fields of \<^verbatim>\<open>gofeed.Item\<close> that the program reads.\<close>

record Item =
  Title :: string
  Link :: string

text \<open>
  A document of the collection, as \<^verbatim>\<open>Tweet\<close> is stored: mgo writes the fields under
  their lower-case names, and the query of \<^verbatim>\<open>tweetItem\<close> is on \<^verbatim>\<open>url\<close>. The
  \<^verbatim>\<open>_id\<close> is left to the database (\<^verbatim>\<open>omitempty\<close>) and is not modelled.
\<close>

record Tweet =
  title :: string
  url :: string
  timestamp :: nat

datatype level = DebugLevel | InfoLevel | ErrorLevel | FatalLevel

text \<open>
  The calls the program makes, as they appear in the trace. \<open>Log\<close> is a call of logrus
  with its level, message and fields; whether logrus prints a \<open>DebugLevel\<close> entry is
  the logger's matter. \<open>Exit\<close> is \<^verbatim>\<open>os.Exit\<close>.
\<close>

datatype event =
    VerifyCredentials
  | Dial
  | Go_ensureIndex
  | ParseURL
  | Copy
  | Close
  | Find string
  | PostTweet string
  | Insert Tweet
  | Log level string "(string \<times> string) list"
  | Exit nat

text \<open>
  The world outside the program. \<open>ENVIRONMENT\<close> is the environment variable of that
  name. Each other field is the answer of an external call: \<open>None\<close> is success,
  \<open>Some err\<close> the error returned. The calls made inside the loop get the trace so far,
  so that the same call may succeed once and fail later. \<open>Count_on_err\<close> is the number
  that a failed count query returns beside its error. \<open>ParseURL_result\<close> is fixed: the
  feed is the same on every run.
\<close>

record env =
  ENVIRONMENT :: string
  VerifyCredentials_err :: "error option"
  Dial_err :: "error option"
  ParseURL_result :: "error + Item list"
  Count_err :: "event list \<Rightarrow> string \<Rightarrow> error option"
  Count_on_err :: "event list \<Rightarrow> string \<Rightarrow> nat"
  PostTweet_err :: "event list \<Rightarrow> string \<Rightarrow> error option"
  Insert_err :: "event list \<Rightarrow> Tweet \<Rightarrow> error option"
  Now :: "event list \<Rightarrow> nat"

record state =
  tweets :: "Tweet list"
  trace :: "event list"

definition emit :: "event \<Rightarrow> state \<Rightarrow> state" where
  "emit e s = s\<lparr>trace := trace s @ [e]\<rparr>"

text \<open>The calls made between two states.\<close>

definition emitted :: "state \<Rightarrow> state \<Rightarrow> event list" where
  "emitted s s' = drop (length (trace s)) (trace s')"

subsection \<open>The external calls\<close>

text \<open>
  \<^verbatim>\<open>tweets.Find(bson.M{"url": link}).Count()\<close> returns a number and an error. When
  the query succeeds the number is that of the documents with the url. When it fails the
  number is whatever the library hands back beside the error: 0 when the reply carries no
  count, the count of the reply when it carries one. The world decides it.
\<close>

definition tweets_Find_Count :: "env \<Rightarrow> string \<Rightarrow> state \<Rightarrow> (nat \<times> error option) \<times> state" where
  "tweets_Find_Count env link s =
     (case Count_err env (trace s) link of
        Some err \<Rightarrow> ((Count_on_err env (trace s) link, Some err), emit (Find link) s)
      | None \<Rightarrow> ((length (filter (\<lambda>t. url t = link) (tweets s)), None), emit (Find link) s))"

definition api_PostTweet :: "env \<Rightarrow> string \<Rightarrow> state \<Rightarrow> error option \<times> state" where
  "api_PostTweet env status s = (PostTweet_err env (trace s) status, emit (PostTweet status) s)"

text \<open>
  \<^verbatim>\<open>tweets.Insert\<close>: the database either rejects the document, for a duplicate key or
  any other reason, and is unchanged, or stores it.
\<close>

definition tweets_Insert :: "env \<Rightarrow> Tweet \<Rightarrow> state \<Rightarrow> error option \<times> state" where
  "tweets_Insert env doc s =
     (case Insert_err env (trace s) doc of
        Some err \<Rightarrow> (Some err, emit (Insert doc) s)
      | None \<Rightarrow> (None, emit (Insert doc) (s\<lparr>tweets := tweets s @ [doc]\<rparr>)))"

definition log_Fatal :: "string \<Rightarrow> state \<Rightarrow> (fatal + 'a) \<times> state" where
  "log_Fatal m s = (Inl (Fatal m), emit (Exit 1) (emit (Log FatalLevel m []) s))"

subsection \<open>Formatting\<close>

text \<open>\<^verbatim>\<open>%d\<close> of a count, which is never negative.\<close>

definition digit :: "nat \<Rightarrow> char" where
  "digit n = ''0123456789'' ! n"

function dec :: "nat \<Rightarrow> string" where
  "dec n = (if n < 10 then [digit n] else dec (n div 10) @ [digit (n mod 10)])"
  by pat_completeness auto
termination
  by (relation "measure id") auto

declare dec.simps [simp del]

subsection \<open>tweetItem\<close>

text \<open>
  The deferred \<^verbatim>\<open>session.Close()\<close> runs when \<^verbatim>\<open>tweetItem\<close> returns. It does not
  run when \<^verbatim>\<open>log.Fatal\<close> ends the process: \<^verbatim>\<open>os.Exit\<close> runs no deferred call.
  \<^verbatim>\<open>fmt.Sprintf("%s\n%s", t, l)\<close> is \<open>t\<close>, a line feed, \<open>l\<close>.
\<close>

definition tweetItem :: "env \<Rightarrow> Item \<Rightarrow> state \<Rightarrow> (fatal + bool) \<times> state" where
  "tweetItem env item s0 =
     (let s1 = emit Copy s0;
          ((count, _), s2) = tweets_Find_Count env (Link item) s1
      in if count > 0 then
           (Inr False,
            emit Close (emit (Log DebugLevel ''Item already exists'' [(''url'', Link item)]) s2))
         else
           let tweet = Title item @ [CHR 0x0A] @ Link item;
               (err, s3) = (if ENVIRONMENT env \<noteq> ''development''
                            then api_PostTweet env tweet s2 else (None, s2))
           in case err of
                Some e \<Rightarrow> log_Fatal (message e) s3
              | None \<Rightarrow>
                  let s4 = emit (Log DebugLevel ''Tweeted item''
                             [(''title'', Title item), (''url'', Link item), (''tweet'', tweet)]) s3;
                      (err', s5) = tweets_Insert env
                             \<lparr>title = Title item, url = Link item, timestamp = Now env (trace s4)\<rparr> s4;
                      s6 = (case err' of
                              Some e \<Rightarrow> emit (Log ErrorLevel (message e) []) s5
                            | None \<Rightarrow> s5)
                  in (Inr True, emit Close s6))"

subsection \<open>getFeedItems and tweetFeed\<close>

definition getFeedItems :: "env \<Rightarrow> state \<Rightarrow> (fatal + Item list) \<times> state" where
  "getFeedItems env s =
     (let s1 = emit ParseURL s
      in case ParseURL_result env of
           Inl err \<Rightarrow> log_Fatal (message err) s1
         | Inr items \<Rightarrow> (Inr items, s1))"

text \<open>The loop of \<^verbatim>\<open>tweetFeed\<close> over the items, with its counter.\<close>

fun tweetLoop :: "env \<Rightarrow> Item list \<Rightarrow> nat \<Rightarrow> state \<Rightarrow> (fatal + nat) \<times> state" where
  "tweetLoop env [] count s = (Inr count, s)"
| "tweetLoop env (item # items) count s =
     (case tweetItem env item s of
        (Inl f, s') \<Rightarrow> (Inl f, s')
      | (Inr sent, s') \<Rightarrow> tweetLoop env items (if sent then count + 1 else count) s')"

text \<open>
  \<^verbatim>\<open>tweetFeed\<close> returns nothing in Go; here it returns the count that it logs.
  \<^verbatim>\<open>go ensureIndex(session)\<close> starts a goroutine that builds the unique index on
  \<^verbatim>\<open>url\<close> beside the loop. The trace records that it was started; what it does
  reaches the loop only through the database's answers, which are in \<open>env\<close>.
\<close>

definition tweetFeed :: "env \<Rightarrow> state \<Rightarrow> (fatal + nat) \<times> state" where
  "tweetFeed env s0 =
     (let s1 = emit VerifyCredentials s0
      in case VerifyCredentials_err env of
           Some err \<Rightarrow> log_Fatal ''Could not connect to Twitter'' s1
         | None \<Rightarrow>
             (let s2 = emit Dial s1
              in case Dial_err env of
                   Some err \<Rightarrow> log_Fatal (message err) s2
                 | None \<Rightarrow>
                     (let s3 = emit Go_ensureIndex s2
                      in case getFeedItems env s3 of
                           (Inl f, s4) \<Rightarrow> (Inl f, s4)
                         | (Inr items, s4) \<Rightarrow>
                             (case tweetLoop env items 0 s4 of
                                (Inl f, s5) \<Rightarrow> (Inl f, s5)
                              | (Inr count, s5) \<Rightarrow>
                                  (Inr count,
                                   emit (Log InfoLevel (dec count @ '' items were tweeted'') [])
                                     s5)))))"

subsection \<open>Reading a trace\<close>

text \<open>The messages given to the Publisher, and the documents given to the store, in order.\<close>

fun posts :: "event list \<Rightarrow> string list" where
  "posts [] = []"
| "posts (PostTweet m # es) = m # posts es"
| "posts (e # es) = posts es"

fun inserts :: "event list \<Rightarrow> Tweet list" where
  "inserts [] = []"
| "inserts (Insert d # es) = d # inserts es"
| "inserts (e # es) = inserts es"

text \<open>The \<open>tweet\<close> fields of the entries logged as \<^verbatim>\<open>Tweeted item\<close>.\<close>

fun logged_tweets :: "event list \<Rightarrow> string list" where
  "logged_tweets [] = []"
| "logged_tweets (Log l m kvs # es) =
     (if m = ''Tweeted item'' then map snd (filter (\<lambda>f. fst f = ''tweet'') kvs) else [])
     @ logged_tweets es"
| "logged_tweets (e # es) = logged_tweets es"

text \<open>Sessions copied and sessions closed.\<close>

definition opened :: "event list \<Rightarrow> nat" where
  "opened es = length (filter (\<lambda>e. e = Copy) es)"

definition closed :: "event list \<Rightarrow> nat" where
  "closed es = length (filter (\<lambda>e. e = Close) es)"

text \<open>The store has a document with this url.\<close>

definition recorded :: "state \<Rightarrow> string \<Rightarrow> bool" where
  "recorded s link = (link \<in> url ` set (tweets s))"

subsection \<open>The answers to the calls of one tweetItem\<close>

text \<open>
  When \<^verbatim>\<open>tweetItem\<close> starts in state \<open>s\<close>, the trace at each of its external calls is
  the trace of \<open>s\<close> followed by the calls it has made itself. These are the answers it
  gets: the error of the count query, of \<^verbatim>\<open>PostTweet\<close> and of \<^verbatim>\<open>Insert\<close>, the
  calls made before the insert, and the document inserted.
\<close>

definition query_err :: "env \<Rightarrow> Item \<Rightarrow> state \<Rightarrow> error option" where
  "query_err env item s = Count_err env (trace s @ [Copy]) (Link item)"

definition post_err :: "env \<Rightarrow> Item \<Rightarrow> state \<Rightarrow> error option" where
  "post_err env item s =
     PostTweet_err env (trace s @ [Copy, Find (Link item)]) (Title item @ [CHR 0x0A] @ Link item)"

definition before_insert :: "env \<Rightarrow> Item \<Rightarrow> event list" where
  "before_insert env item =
     [Copy, Find (Link item)]
     @ (if ENVIRONMENT env \<noteq> ''development''
        then [PostTweet (Title item @ [CHR 0x0A] @ Link item)] else [])
     @ [Log DebugLevel ''Tweeted item''
          [(''title'', Title item), (''url'', Link item),
           (''tweet'', Title item @ [CHR 0x0A] @ Link item)]]"

definition document :: "env \<Rightarrow> Item \<Rightarrow> state \<Rightarrow> Tweet" where
  "document env item s =
     \<lparr>title = Title item, url = Link item, timestamp = Now env (trace s @ before_insert env item)\<rparr>"

definition insert_err :: "env \<Rightarrow> Item \<Rightarrow> state \<Rightarrow> error option" where
  "insert_err env item s = Insert_err env (trace s @ before_insert env item) (document env item s)"

text \<open>
  The number that the count query of \<^verbatim>\<open>tweetItem\<close> returns, beside an error or not,
  and the test that \<^verbatim>\<open>tweetItem\<close> makes on it: the item is skipped when the number
  is positive.
\<close>

definition seen_count :: "env \<Rightarrow> Item \<Rightarrow> state \<Rightarrow> nat" where
  "seen_count env item s = fst (fst (tweets_Find_Count env (Link item) (emit Copy s)))"

definition counts_zero :: "env \<Rightarrow> Item \<Rightarrow> state \<Rightarrow> bool" where
  "counts_zero env item s = (seen_count env item s = 0)"

text \<open>The entries logged at the error level, and the errors of the count queries of a loop.\<close>

fun errors_logged :: "event list \<Rightarrow> string list" where
  "errors_logged [] = []"
| "errors_logged (Log l m kvs # es) = (if l = ErrorLevel then [m] else []) @ errors_logged es"
| "errors_logged (e # es) = errors_logged es"

fun query_errors :: "env \<Rightarrow> Item list \<Rightarrow> state \<Rightarrow> error list" where
  "query_errors env [] s = []"
| "query_errors env (item # items) s =
     (case query_err env item s of None \<Rightarrow> [] | Some err \<Rightarrow> [err])
     @ (case tweetItem env item s of
          (Inl f, s') \<Rightarrow> []
        | (Inr sent, s') \<Rightarrow> query_errors env items s')"

text \<open>The state in which the loop of \<^verbatim>\<open>tweetFeed\<close> starts when every step before it succeeded.\<close>

definition startup :: "state \<Rightarrow> state" where
  "startup s = emit ParseURL (emit Go_ensureIndex (emit Dial (emit VerifyCredentials s)))"

subsection \<open>Concrete worlds\<close>

text \<open>Answers that never fail and that always fail, and a clock that ticks with every call.\<close>

definition succeeds :: "event list \<Rightarrow> 'a \<Rightarrow> error option" where
  "succeeds h x = None"

definition fails :: "event list \<Rightarrow> 'a \<Rightarrow> error option" where
  "fails h x = Some (Error ''i/o timeout'')"

definition fails_on :: "string \<Rightarrow> event list \<Rightarrow> string \<Rightarrow> error option" where
  "fails_on m h x = (if x = m then Some (Error ''503 Service Unavailable'') else None)"

definition first_insert_fails :: "event list \<Rightarrow> Tweet \<Rightarrow> error option" where
  "first_insert_fails h d = (if inserts h = [] then Some (Error ''i/o timeout'') else None)"

definition clock :: "event list \<Rightarrow> nat" where
  "clock h = length h"

text \<open>The number beside the error of a failed count query: none in the reply, or 3.\<close>

definition no_count :: "event list \<Rightarrow> string \<Rightarrow> nat" where
  "no_count h x = 0"

definition count_3 :: "event list \<Rightarrow> string \<Rightarrow> nat" where
  "count_3 h x = 3"

text \<open>A world in which every call succeeds, for a mode and a feed.\<close>

definition world :: "string \<Rightarrow> Item list \<Rightarrow> env" where
  "world mode items =
     \<lparr>ENVIRONMENT = mode, VerifyCredentials_err = None, Dial_err = None,
      ParseURL_result = Inr items, Count_err = succeeds, Count_on_err = no_count,
      PostTweet_err = succeeds, Insert_err = succeeds, Now = clock\<rparr>"

definition itemX :: Item where
  "itemX = \<lparr>Title = ''X'', Link = ''http://a''\<rparr>"

definition itemY :: Item where
  "itemY = \<lparr>Title = ''Y'', Link = ''http://b''\<rparr>"

definition itemZ :: Item where
  "itemZ = \<lparr>Title = ''Z'', Link = ''http://c''\<rparr>"

definition empty_store :: state where
  "empty_store = \<lparr>tweets = [], trace = []\<rparr>"

text \<open>A store that already holds the document of \<open>itemX\<close>.\<close>

definition store_with_X :: state where
  "store_with_X = \<lparr>tweets = [\<lparr>title = ''X'', url = ''http://a'', timestamp = 0\<rparr>], trace = []\<rparr>"

text \<open>
  The worlds of the examples: a mode, a feed, and the calls that fail. In
  \<open>prod_XY_first_insert_fails\<close> only the first insert fails, in
  \<open>prod_XYZ_post_Y_fails\<close> the Publisher fails on the message of \<open>itemY\<close>, in
  \<open>prod_XYZ_post_Y_fails_no_insert\<close> every insert fails as well, and in
  \<open>prod_X_query_fails_with_3\<close> the failed count query returns 3 beside its error.
\<close>

definition prod_X :: env where
  "prod_X = world ''production'' [itemX]"

definition prod_XY :: env where
  "prod_XY = world ''production'' [itemX, itemY]"

definition dev_X :: env where
  "dev_X = world ''development'' [itemX]"

definition prod_X_verify_fails :: env where
  "prod_X_verify_fails = (world ''production'' [itemX])\<lparr>VerifyCredentials_err := Some (Error ''401'')\<rparr>"

definition prod_X_query_fails :: env where
  "prod_X_query_fails = (world ''production'' [itemX])\<lparr>Count_err := fails\<rparr>"

definition prod_X_query_fails_with_3 :: env where
  "prod_X_query_fails_with_3 =
     (world ''production'' [itemX])\<lparr>Count_err := fails, Count_on_err := count_3\<rparr>"

definition dev_X_query_fails_with_3 :: env where
  "dev_X_query_fails_with_3 =
     (world ''development'' [itemX])\<lparr>Count_err := fails, Count_on_err := count_3\<rparr>"

definition prod_X_post_fails :: env where
  "prod_X_post_fails = (world ''production'' [itemX])\<lparr>PostTweet_err := fails\<rparr>"

definition prod_X_insert_fails :: env where
  "prod_X_insert_fails = (world ''production'' [itemX])\<lparr>Insert_err := fails\<rparr>"

definition dev_X_insert_fails :: env where
  "dev_X_insert_fails = (world ''development'' [itemX])\<lparr>Insert_err := fails\<rparr>"

definition prod_XY_first_insert_fails :: env where
  "prod_XY_first_insert_fails =
     (world ''production'' [itemX, itemY])\<lparr>Insert_err := first_insert_fails\<rparr>"

definition prod_XYZ_post_Y_fails_no_insert :: env where
  "prod_XYZ_post_Y_fails_no_insert =
     (world ''production'' [itemX, itemY, itemZ])
       \<lparr>PostTweet_err := fails_on ''Y\<newline>http://b'', Insert_err := fails\<rparr>"

definition prod_XYZ_post_Y_fails :: env where
  "prod_XYZ_post_Y_fails =
     (world ''production'' [itemX, itemY, itemZ])\<lparr>PostTweet_err := fails_on ''Y\<newline>http://b''\<rparr>"

section \<open>Lemmas\<close>

subsection \<open>Traces\<close>

lemma posts_append: "posts (xs @ ys) = posts xs @ posts ys"
  by (induction xs rule: posts.induct) auto

lemma inserts_append: "inserts (xs @ ys) = inserts xs @ inserts ys"
  by (induction xs rule: inserts.induct) auto

lemma logged_tweets_append: "logged_tweets (xs @ ys) = logged_tweets xs @ logged_tweets ys"
  by (induction xs rule: logged_tweets.induct) auto

lemma emitted_app: "trace s' = trace s @ evs \<Longrightarrow> emitted s s' = evs"
  by (simp add: emitted_def)

lemma count_pos: "(0 < length (filter (\<lambda>t. url t = link) (tweets s))) = recorded s link"
  by (auto simp: recorded_def filter_empty_conv image_iff)

lemmas answer_defs = query_err_def post_err_def before_insert_def document_def insert_err_def

subsection \<open>The paths of tweetItem\<close>

lemma find_count:
  "tweets_Find_Count env (Link item) (s\<lparr>trace := trace s @ [Copy]\<rparr>) =
    ((seen_count env item s, query_err env item s),
     s\<lparr>trace := trace s @ [Copy, Find (Link item)]\<rparr>)"
  by (simp add: seen_count_def tweets_Find_Count_def emit_def query_err_def split: option.splits)

lemma find_count_zero:
  assumes "counts_zero env item s"
  shows "tweets_Find_Count env (Link item) (s\<lparr>trace := trace s @ [Copy]\<rparr>) =
    ((0, query_err env item s), s\<lparr>trace := trace s @ [Copy, Find (Link item)]\<rparr>)"
  using assms by (simp add: find_count counts_zero_def)

lemma seen_count_ok:
  "query_err env item s = None \<Longrightarrow>
     seen_count env item s = length (filter (\<lambda>t. url t = Link item) (tweets s))"
  by (simp add: seen_count_def tweets_Find_Count_def emit_def query_err_def)

lemma seen_count_err:
  "query_err env item s = Some err \<Longrightarrow>
     seen_count env item s = Count_on_err env (trace s @ [Copy]) (Link item)"
  by (simp add: seen_count_def tweets_Find_Count_def emit_def query_err_def)

lemma counts_zero_ok:
  "query_err env item s = None \<Longrightarrow> counts_zero env item s = (\<not> recorded s (Link item))"
  using count_pos[of "Link item" s] by (auto simp add: counts_zero_def seen_count_ok)

lemma tweetItem_skip:
  assumes "\<not> counts_zero env item s"
  shows "tweetItem env item s =
    (Inr False, s\<lparr>trace := trace s @ [Copy, Find (Link item),
       Log DebugLevel ''Item already exists'' [(''url'', Link item)], Close]\<rparr>)"
  using assms by (simp add: tweetItem_def find_count counts_zero_def emit_def)

lemma tweetItem_skip_recorded:
  assumes "query_err env item s = None" and "recorded s (Link item)"
  shows "tweetItem env item s =
    (Inr False, s\<lparr>trace := trace s @ [Copy, Find (Link item),
       Log DebugLevel ''Item already exists'' [(''url'', Link item)], Close]\<rparr>)"
  using assms by (simp add: tweetItem_skip counts_zero_ok)

lemma tweetItem_fatal:
  assumes "counts_zero env item s" and "ENVIRONMENT env \<noteq> ''development''"
    and "post_err env item s = Some e"
  shows "tweetItem env item s =
    (Inl (Fatal (message e)), s\<lparr>trace := trace s @ [Copy, Find (Link item),
       PostTweet (Title item @ [CHR 0x0A] @ Link item),
       Log FatalLevel (message e) [], Exit 1]\<rparr>)"
  using assms(2,3)
  by (simp add: tweetItem_def find_count_zero[OF assms(1)] api_PostTweet_def log_Fatal_def
      emit_def post_err_def)

lemma tweetItem_stored:
  assumes "counts_zero env item s"
    and "ENVIRONMENT env \<noteq> ''development'' \<longrightarrow> post_err env item s = None"
    and "insert_err env item s = None"
  shows "tweetItem env item s =
    (Inr True, s\<lparr>tweets := tweets s @ [document env item s],
       trace := trace s @ before_insert env item @ [Insert (document env item s), Close]\<rparr>)"
proof (cases "ENVIRONMENT env = ''development''")
  case True
  with assms(3) show ?thesis
    by (simp add: tweetItem_def find_count_zero[OF assms(1)] tweets_Insert_def emit_def
        answer_defs Let_def)
next
  case False
  with assms(2,3) show ?thesis
    by (simp add: tweetItem_def find_count_zero[OF assms(1)] api_PostTweet_def tweets_Insert_def
        emit_def answer_defs Let_def)
qed

lemma tweetItem_rejected:
  assumes "counts_zero env item s"
    and "ENVIRONMENT env \<noteq> ''development'' \<longrightarrow> post_err env item s = None"
    and "insert_err env item s = Some e"
  shows "tweetItem env item s =
    (Inr True, s\<lparr>trace := trace s @ before_insert env item
       @ [Insert (document env item s), Log ErrorLevel (message e) [], Close]\<rparr>)"
proof (cases "ENVIRONMENT env = ''development''")
  case True
  with assms(3) show ?thesis
    by (simp add: tweetItem_def find_count_zero[OF assms(1)] tweets_Insert_def emit_def
        answer_defs Let_def)
next
  case False
  with assms(2,3) show ?thesis
    by (simp add: tweetItem_def find_count_zero[OF assms(1)] api_PostTweet_def tweets_Insert_def
        emit_def answer_defs Let_def)
qed

text \<open>Every run of tweetItem takes one of four paths.\<close>

lemma tweetItem_paths:
  fixes env :: env and item :: Item and s :: state
  obtains (skip) "\<not> counts_zero env item s"
  | (fatal) e where "counts_zero env item s" "ENVIRONMENT env \<noteq> ''development''" "post_err env item s = Some e"
  | (stored) "counts_zero env item s" "ENVIRONMENT env \<noteq> ''development'' \<longrightarrow> post_err env item s = None"
      "insert_err env item s = None"
  | (rejected) e where "counts_zero env item s" "ENVIRONMENT env \<noteq> ''development'' \<longrightarrow> post_err env item s = None"
      "insert_err env item s = Some e"
  by (cases "counts_zero env item s"; cases "ENVIRONMENT env = ''development''";
      cases "post_err env item s"; cases "insert_err env item s") auto

lemma tweetItem_trace: "\<exists>evs. trace (snd (tweetItem env item s)) = trace s @ evs"
  by (cases rule: tweetItem_paths[where env=env and item=item and s=s])
     (simp_all add: tweetItem_skip tweetItem_fatal tweetItem_stored tweetItem_rejected)

lemma tweetItem_tweets: "\<exists>ds. tweets (snd (tweetItem env item s)) = tweets s @ ds"
  by (cases rule: tweetItem_paths[where env=env and item=item and s=s])
     (simp_all add: tweetItem_skip tweetItem_fatal tweetItem_stored tweetItem_rejected)

lemma tweetLoop_trace: "\<exists>evs. trace (snd (tweetLoop env items n s)) = trace s @ evs"
proof (induction items arbitrary: n s)
  case Nil
  then show ?case by simp
next
  case (Cons item items)
  obtain r s' where step: "tweetItem env item s = (r, s')" by (cases "tweetItem env item s")
  obtain evs where evs: "trace s' = trace s @ evs"
    using tweetItem_trace[of env item s] step by auto
  show ?case
  proof (cases r)
    case (Inl f)
    with step evs show ?thesis by simp
  next
    case (Inr sent)
    obtain evs' where "trace (snd (tweetLoop env items (if sent then n + 1 else n) s')) = trace s' @ evs'"
      using Cons.IH by blast
    with step evs Inr show ?thesis by simp
  qed
qed

subsection \<open>The loop and tweetFeed\<close>

lemma recorded_mono: "tweets s' = tweets s @ ds \<Longrightarrow> recorded s link \<Longrightarrow> recorded s' link"
  by (auto simp: recorded_def)

lemma errors_logged_append: "errors_logged (xs @ ys) = errors_logged xs @ errors_logged ys"
  by (induction xs rule: errors_logged.induct) auto

lemma emitted_trans:
  assumes "trace s1 = trace s @ a" and "trace s2 = trace s1 @ b"
  shows "emitted s s2 = emitted s s1 @ emitted s1 s2"
  using assms by (simp add: emitted_def)

text \<open>An item that is sent logs an error exactly when its insert fails.\<close>

lemma tweetItem_errors_logged:
  assumes "tweetItem env item s = (Inr True, s')"
  shows "errors_logged (emitted s s')
    = (case insert_err env item s of None \<Rightarrow> [] | Some e \<Rightarrow> [message e])"
proof (cases rule: tweetItem_paths[where env=env and item=item and s=s])
  case skip
  with assms show ?thesis by (simp add: tweetItem_skip)
next
  case (fatal e)
  with assms show ?thesis by (simp add: tweetItem_fatal)
next
  case stored
  with assms show ?thesis
    by (auto simp: tweetItem_stored emitted_def errors_logged_append before_insert_def)
next
  case (rejected e)
  with assms show ?thesis
    by (auto simp: tweetItem_rejected emitted_def errors_logged_append before_insert_def)
qed

text \<open>
  After an item is processed with a count query that did not fail and with no error
  logged, its url is recorded.
\<close>

lemma tweetItem_records:
  assumes "tweetItem env item s = (Inr sent, s')" and "query_err env item s = None"
    and "errors_logged (emitted s s') = []"
  shows "recorded s' (Link item)"
proof (cases rule: tweetItem_paths[where env=env and item=item and s=s])
  case skip
  with assms(2) have "recorded s (Link item)" by (simp add: counts_zero_ok)
  with skip assms(1) show ?thesis by (auto simp: tweetItem_skip recorded_def)
next
  case (fatal e)
  with assms(1) show ?thesis by (simp add: tweetItem_fatal)
next
  case stored
  with assms(1) show ?thesis by (auto simp: tweetItem_stored recorded_def document_def)
next
  case (rejected e)
  with assms(1,3) show ?thesis
    by (auto simp: tweetItem_rejected emitted_def errors_logged_append)
qed

lemma tweetLoop_records:
  assumes "tweetLoop env items n s = (Inr m, s')" and "query_errors env items s = []"
    and "errors_logged (emitted s s') = []"
  shows "(\<forall>item \<in> set items. recorded s' (Link item)) \<and> (\<exists>ds. tweets s' = tweets s @ ds)"
  using assms
proof (induction items arbitrary: n s)
  case Nil
  then show ?case by simp
next
  case (Cons item items)
  obtain r s1 where step: "tweetItem env item s = (r, s1)" by (cases "tweetItem env item s")
  show ?case
  proof (cases r)
    case (Inl f)
    with step Cons.prems(1) show ?thesis by simp
  next
    case (Inr sent)
    with step Cons.prems(1)
    have rest: "tweetLoop env items (if sent then n + 1 else n) s1 = (Inr m, s')"
      by simp
    from step Inr Cons.prems(2) have q: "query_err env item s = None"
      and qs: "query_errors env items s1 = []"
      by (simp_all split: option.splits)
    obtain a where a: "trace s1 = trace s @ a"
      using tweetItem_trace[of env item s] step by auto
    obtain b where b: "trace s' = trace s1 @ b"
      using tweetLoop_trace[of env items "if sent then n + 1 else n" s1] rest by auto
    from Cons.prems(3) have e1: "errors_logged (emitted s s1) = []"
      and e2: "errors_logged (emitted s1 s') = []"
      by (simp_all add: emitted_trans[OF a b] errors_logged_append)
    from Cons.IH[OF rest qs e2] obtain ds where
      all: "\<forall>item \<in> set items. recorded s' (Link item)" and ds: "tweets s' = tweets s1 @ ds"
      by blast
    from step Inr have "tweetItem env item s = (Inr sent, s1)" by simp
    from tweetItem_records[OF this q e1] have "recorded s1 (Link item)" .
    with ds have here: "recorded s' (Link item)" using recorded_mono by blast
    obtain ds1 where "tweets s1 = tweets s @ ds1"
      using tweetItem_tweets[of env item s] step by auto
    with ds have "tweets s' = tweets s @ (ds1 @ ds)" by simp
    with all here show ?thesis by auto
  qed
qed

text \<open>A loop over items that are all recorded, with no count query that fails, changes nothing.\<close>

lemma tweetLoop_all_recorded:
  assumes "query_errors env items s = []" and "\<forall>item \<in> set items. recorded s (Link item)"
  shows "\<exists>evs. tweetLoop env items n s = (Inr n, s\<lparr>trace := trace s @ evs\<rparr>)
     \<and> posts evs = [] \<and> inserts evs = []"
  using assms
proof (induction items arbitrary: s)
  case Nil
  have "s = s\<lparr>trace := trace s @ []\<rparr>" by simp
  then have "tweetLoop env [] n s = (Inr n, s\<lparr>trace := trace s @ []\<rparr>)
      \<and> posts [] = [] \<and> inserts [] = []"
    by simp
  then show ?case by blast
next
  case (Cons item items)
  let ?evs = "[Copy, Find (Link item),
    Log DebugLevel ''Item already exists'' [(''url'', Link item)], Close]"
  let ?s1 = "s\<lparr>trace := trace s @ ?evs\<rparr>"
  have q: "query_err env item s = None"
    using Cons.prems(1) by (simp split: option.splits)
  have r: "recorded s (Link item)" using Cons.prems(2) by simp
  have step: "tweetItem env item s = (Inr False, ?s1)"
    using tweetItem_skip_recorded[OF q r] .
  have qs: "query_errors env items ?s1 = []"
    using Cons.prems(1) step by (simp split: option.splits)
  have "\<forall>item \<in> set items. recorded ?s1 (Link item)"
    using Cons.prems(2) by (simp add: recorded_def)
  from Cons.IH[OF qs this] obtain evs where
    loop: "tweetLoop env items n ?s1 = (Inr n, ?s1\<lparr>trace := trace ?s1 @ evs\<rparr>)"
    and none: "posts evs = []" "inserts evs = []" by blast
  have "tweetLoop env (item # items) n s = (Inr n, s\<lparr>trace := trace s @ (?evs @ evs)\<rparr>)"
    using step loop by simp
  moreover have "posts (?evs @ evs) = []" "inserts (?evs @ evs) = []"
    using none by (simp_all add: posts_append inserts_append)
  ultimately show ?case by blast
qed

lemma startup_simp: "startup s = s\<lparr>trace := trace s @ [VerifyCredentials, Dial, Go_ensureIndex, ParseURL]\<rparr>"
  by (simp add: startup_def emit_def)

lemma tweetFeed_started:
  assumes "VerifyCredentials_err env = None" and "Dial_err env = None"
    and "ParseURL_result env = Inr items"
  shows "tweetFeed env s =
    (case tweetLoop env items 0 (startup s) of
       (Inl f, s') \<Rightarrow> (Inl f, s')
     | (Inr n, s') \<Rightarrow> (Inr n, s'\<lparr>trace := trace s' @ [Log InfoLevel (dec n @ '' items were tweeted'') []]\<rparr>))"
  using assms
  by (simp add: tweetFeed_def getFeedItems_def startup_def emit_def split: prod.splits sum.splits)

lemma tweetFeed_returns:
  assumes "tweetFeed env s = (Inr n, s')"
  obtains items s'' where "VerifyCredentials_err env = None" and "Dial_err env = None"
    and "ParseURL_result env = Inr items"
    and "tweetLoop env items 0 (startup s) = (Inr n, s'')"
    and "s' = s''\<lparr>trace := trace s'' @ [Log InfoLevel (dec n @ '' items were tweeted'') []]\<rparr>"
proof -
  have v: "VerifyCredentials_err env = None"
    using assms by (cases "VerifyCredentials_err env") (simp_all add: tweetFeed_def log_Fatal_def)
  have d: "Dial_err env = None"
    using assms v by (cases "Dial_err env") (simp_all add: tweetFeed_def log_Fatal_def)
  obtain items where p: "ParseURL_result env = Inr items"
    using assms v d
    by (cases "ParseURL_result env") (simp_all add: tweetFeed_def getFeedItems_def log_Fatal_def)
  obtain r s'' where l: "tweetLoop env items 0 (startup s) = (r, s'')"
    by (cases "tweetLoop env items 0 (startup s)")
  from assms l have "r = Inr n \<and> s' = s''\<lparr>trace := trace s'' @ [Log InfoLevel (dec n @ '' items were tweeted'') []]\<rparr>"
    by (cases r) (simp_all add: tweetFeed_started[OF v d p])
  with that v d p l show ?thesis by blast
qed


subsection \<open>Evaluation\<close>

lemmas run_defs = Let_def tweetItem_def tweets_Find_Count_def api_PostTweet_def tweets_Insert_def
  log_Fatal_def emit_def emitted_def getFeedItems_def tweetFeed_def startup_def recorded_def

lemmas world_defs = world_def succeeds_def fails_def fails_on_def first_insert_fails_def clock_def
  itemX_def itemY_def itemZ_def empty_store_def store_with_X_def
  prod_X_def prod_XY_def dev_X_def prod_X_verify_fails_def prod_X_query_fails_def
  prod_X_post_fails_def prod_X_insert_fails_def dev_X_insert_fails_def
  prod_XY_first_insert_fails_def prod_XYZ_post_Y_fails_def no_count_def count_3_def
  prod_X_query_fails_with_3_def prod_XYZ_post_Y_fails_no_insert_def
  dev_X_query_fails_with_3_def

subsection \<open>More on the loop\<close>

lemma tweetLoop_append:
  "tweetLoop env (xs @ ys) n s =
    (case tweetLoop env xs n s of
       (Inl f, s') \<Rightarrow> (Inl f, s')
     | (Inr m, s') \<Rightarrow> tweetLoop env ys m s')"
  by (induction xs arbitrary: n s) (auto split: prod.splits sum.splits)

lemma dec_2: "dec 2 = ''2''"
  by (simp add: dec.simps digit_def)

text \<open>
  Each \<^verbatim>\<open>tweetItem\<close> copies one session. It closes it when it returns, and not when
  it ends the process.
\<close>

lemma tweetItem_sessions:
  "opened (emitted s (snd (tweetItem env item s))) = 1
   \<and> closed (emitted s (snd (tweetItem env item s)))
       = (case fst (tweetItem env item s) of Inl f \<Rightarrow> 0 | Inr sent \<Rightarrow> 1)"
  by (cases rule: tweetItem_paths[where env=env and item=item and s=s])
     (simp_all add: tweetItem_skip tweetItem_fatal tweetItem_stored tweetItem_rejected
        emitted_def opened_def closed_def before_insert_def)


section \<open>The claims\<close>

subsection \<open>C1: a second run\<close>

text \<open>
  C1, with the provisos it needs. Let a first run on the feed \<open>items\<close> end normally, with
  none of its count queries failing and no insert error logged, that is with none of its
  inserts failing. Let a second run on the same feed start in the state the first one
  left, get through its start-up, and have none of its count queries fail. Then the second
  run reports 0, leaves the store as it was, calls the Publisher zero times and inserts
  nothing.
\<close>

theorem second_run_publishes_nothing:
  assumes "tweetFeed env1 s0 = (Inr n, s1)"
    and "ParseURL_result env1 = Inr items"
    and "query_errors env1 items (startup s0) = []"
    and "errors_logged (emitted s0 s1) = []"
    and "VerifyCredentials_err env2 = None" and "Dial_err env2 = None"
    and "ParseURL_result env2 = Inr items"
    and "query_errors env2 items (startup s1) = []"
  shows "\<exists>s2. tweetFeed env2 s1 = (Inr 0, s2) \<and> tweets s2 = tweets s1
    \<and> posts (emitted s1 s2) = [] \<and> inserts (emitted s1 s2) = []"
proof -
  from assms(1) obtain items' s1' where
    "ParseURL_result env1 = Inr items'"
    and loop': "tweetLoop env1 items' 0 (startup s0) = (Inr n, s1')"
    and s1: "s1 = s1'\<lparr>trace := trace s1' @ [Log InfoLevel (dec n @ '' items were tweeted'') []]\<rparr>"
    by (rule tweetFeed_returns)
  with assms(2) have loop1: "tweetLoop env1 items 0 (startup s0) = (Inr n, s1')"
    by simp
  obtain evs1 where evs1: "trace s1' = trace (startup s0) @ evs1"
    using tweetLoop_trace[of env1 items 0 "startup s0"] loop1 by auto
  have "emitted s0 s1 = [VerifyCredentials, Dial, Go_ensureIndex, ParseURL] @ evs1
      @ [Log InfoLevel (dec n @ '' items were tweeted'') []]"
    by (simp add: s1 evs1 startup_simp emitted_def)
  with assms(4) have "errors_logged evs1 = []"
    by (simp add: errors_logged_append)
  then have "errors_logged (emitted (startup s0) s1') = []"
    by (simp add: emitted_app[OF evs1])
  from tweetLoop_records[OF loop1 assms(3) this]
  have "\<forall>item \<in> set items. recorded s1' (Link item)"
    by blast
  then have "\<forall>item \<in> set items. recorded (startup s1) (Link item)"
    by (simp add: s1 startup_simp recorded_def)
  from tweetLoop_all_recorded[OF assms(8) this, of 0] obtain evs where
    loop2: "tweetLoop env2 items 0 (startup s1)
      = (Inr 0, (startup s1)\<lparr>trace := trace (startup s1) @ evs\<rparr>)"
    and none: "posts evs = []" "inserts evs = []"
    by blast
  let ?evs = "[VerifyCredentials, Dial, Go_ensureIndex, ParseURL] @ evs
     @ [Log InfoLevel (dec 0 @ '' items were tweeted'') []]"
  have run: "tweetFeed env2 s1 = (Inr 0, s1\<lparr>trace := trace s1 @ ?evs\<rparr>)"
    using loop2 by (simp add: tweetFeed_started[OF assms(5,6,7)] startup_simp)
  have e: "emitted s1 (s1\<lparr>trace := trace s1 @ ?evs\<rparr>) = ?evs"
    by (simp add: emitted_def)
  have p1: "tweets (s1\<lparr>trace := trace s1 @ ?evs\<rparr>) = tweets s1"
    by simp
  have p2: "posts (emitted s1 (s1\<lparr>trace := trace s1 @ ?evs\<rparr>)) = []"
    unfolding e using none by (simp add: posts_append)
  have p3: "inserts (emitted s1 (s1\<lparr>trace := trace s1 @ ?evs\<rparr>)) = []"
    unfolding e using none by (simp add: inserts_append)
  show ?thesis
    by (intro exI[of _ "s1\<lparr>trace := trace s1 @ ?evs\<rparr>"] conjI run p1 p2 p3)
qed

text \<open>
  The theorem at a feed of two items and an empty store, in a world where no call fails:
  the first run sends both items, the second none.
\<close>

theorem second_run_publishes_nothing_witness:
  "fst (tweetFeed prod_XY empty_store) = Inr 2
   \<and> query_errors prod_XY [itemX, itemY] (startup empty_store) = []
   \<and> errors_logged (emitted empty_store (snd (tweetFeed prod_XY empty_store))) = []
   \<and> query_errors prod_XY [itemX, itemY] (startup (snd (tweetFeed prod_XY empty_store))) = []
   \<and> (\<exists>s2. tweetFeed prod_XY (snd (tweetFeed prod_XY empty_store)) = (Inr 0, s2)
        \<and> tweets s2 = tweets (snd (tweetFeed prod_XY empty_store))
        \<and> posts (emitted (snd (tweetFeed prod_XY empty_store)) s2) = []
        \<and> inserts (emitted (snd (tweetFeed prod_XY empty_store)) s2) = [])"
proof -
  have r: "fst (tweetFeed prod_XY empty_store) = Inr 2"
    by (simp add: run_defs world_defs)
  then have run: "tweetFeed prod_XY empty_store = (Inr 2, snd (tweetFeed prod_XY empty_store))"
    by (simp add: prod_eq_iff)
  have f: "ParseURL_result prod_XY = Inr [itemX, itemY]"
    and v: "VerifyCredentials_err prod_XY = None" and d: "Dial_err prod_XY = None"
    by (simp_all add: world_defs)
  have q1: "query_errors prod_XY [itemX, itemY] (startup empty_store) = []"
    by (simp add: run_defs query_err_def world_defs)
  have e1: "errors_logged (emitted empty_store (snd (tweetFeed prod_XY empty_store))) = []"
    by (simp add: run_defs world_defs)
  have q2: "query_errors prod_XY [itemX, itemY] (startup (snd (tweetFeed prod_XY empty_store))) = []"
    by (simp add: run_defs query_err_def world_defs)
  from second_run_publishes_nothing[OF run f q1 e1 v d f q2] r q1 e1 q2 show ?thesis
    by (intro conjI)
qed

text \<open>
  C1 as it is written fails in three ways, each on the feed of \<open>itemX\<close> and an empty
  store. An insert of the first run fails: the first run posts the item, only logs the
  error and reports 1 with the store still empty, and the second run, with no failure,
  posts the item again, stores its document and reports 1. A count query of the second run
  fails: after a first run with no failure, the second run posts the item again and reports
  1. A count query of the first run fails and returns 3 beside its error: the first run
  skips the item, and the second run, with no failure, posts it, stores its document and
  reports 1.
\<close>

theorem second_run_publishes_nothing_counterexample:
  "fst (tweetFeed prod_X_insert_fails empty_store) = Inr 1
   \<and> tweets (snd (tweetFeed prod_X_insert_fails empty_store)) = []
   \<and> fst (tweetFeed prod_X (snd (tweetFeed prod_X_insert_fails empty_store))) = Inr 1
   \<and> posts (emitted (snd (tweetFeed prod_X_insert_fails empty_store))
        (snd (tweetFeed prod_X (snd (tweetFeed prod_X_insert_fails empty_store)))))
      = [''X\<newline>http://a'']
   \<and> map url (tweets (snd (tweetFeed prod_X (snd (tweetFeed prod_X_insert_fails empty_store)))))
      = [''http://a'']
   \<and> fst (tweetFeed prod_X empty_store) = Inr 1
   \<and> map url (tweets (snd (tweetFeed prod_X empty_store))) = [''http://a'']
   \<and> fst (tweetFeed prod_X_query_fails (snd (tweetFeed prod_X empty_store))) = Inr 1
   \<and> posts (emitted (snd (tweetFeed prod_X empty_store))
        (snd (tweetFeed prod_X_query_fails (snd (tweetFeed prod_X empty_store)))))
      = [''X\<newline>http://a'']
   \<and> fst (tweetFeed prod_X_query_fails_with_3 empty_store) = Inr 0
   \<and> tweets (snd (tweetFeed prod_X_query_fails_with_3 empty_store)) = []
   \<and> fst (tweetFeed prod_X (snd (tweetFeed prod_X_query_fails_with_3 empty_store))) = Inr 1
   \<and> posts (emitted (snd (tweetFeed prod_X_query_fails_with_3 empty_store))
        (snd (tweetFeed prod_X (snd (tweetFeed prod_X_query_fails_with_3 empty_store)))))
      = [''X\<newline>http://a'']
   \<and> map url (tweets (snd (tweetFeed prod_X
        (snd (tweetFeed prod_X_query_fails_with_3 empty_store))))) = [''http://a'']"
  by (simp add: run_defs world_defs)

subsection \<open>C2: an item that is already recorded\<close>

text \<open>
  C2, with the proviso it needs. When the url of an item already has a document in the store and the count
  query for it does not fail, \<^verbatim>\<open>tweetItem\<close> returns false, leaves the store as it
  was, calls the Publisher zero times and inserts nothing, and the loop goes on with its
  counter unchanged.
\<close>

theorem recorded_item_is_skipped:
  assumes "recorded s (Link item)" and "query_err env item s = None"
  shows "\<exists>s'. tweetItem env item s = (Inr False, s') \<and> tweets s' = tweets s
    \<and> posts (emitted s s') = [] \<and> inserts (emitted s s') = []
    \<and> tweetLoop env (item # items) n s = tweetLoop env items n s'"
  by (simp add: tweetItem_skip_recorded[OF assms(2,1)] emitted_def)

text \<open>The theorem at \<open>itemX\<close>, in a store that holds its document and answers the query.\<close>

theorem recorded_item_is_skipped_witness:
  "recorded store_with_X (Link itemX)
   \<and> query_err prod_X itemX store_with_X = None
   \<and> (\<exists>s'. tweetItem prod_X itemX store_with_X = (Inr False, s')
        \<and> tweets s' = tweets store_with_X
        \<and> posts (emitted store_with_X s') = [] \<and> inserts (emitted store_with_X s') = []
        \<and> tweetLoop prod_X [itemX] 0 store_with_X = tweetLoop prod_X [] 0 s')"
proof -
  have r: "recorded store_with_X (Link itemX)"
    by (simp add: recorded_def world_defs)
  have q: "query_err prod_X itemX store_with_X = None"
    by (simp add: query_err_def world_defs)
  from recorded_item_is_skipped[OF r q, of "[]" 0] r q show ?thesis by blast
qed

text \<open>
  C2 as it is written fails when the count query fails: the store holds the document of
  \<open>itemX\<close>, the query returns an error and no count, and \<^verbatim>\<open>tweetItem\<close> posts the
  item, inserts a second document and returns true.
\<close>

theorem recorded_item_is_skipped_counterexample:
  "recorded store_with_X (Link itemX)
   \<and> fst (tweetItem prod_X_query_fails itemX store_with_X) = Inr True
   \<and> posts (emitted store_with_X (snd (tweetItem prod_X_query_fails itemX store_with_X)))
      = [''X\<newline>http://a'']
   \<and> length (inserts (emitted store_with_X
        (snd (tweetItem prod_X_query_fails itemX store_with_X)))) = 1"
  by (simp add: run_defs world_defs)

subsection \<open>C3: a Publisher that fails\<close>

text \<open>
  C3, with the proviso it needs. Outside development mode, let the loop have processed the
  earlier items of the feed, and let the Publisher return an error for the next item. Then
  \<^verbatim>\<open>tweetFeed\<close> ends in \<^verbatim>\<open>log.Fatal\<close> with the Publisher's error. The store is as the
  earlier items left it, and after them the only calls are the five of the failing item,
  the last one the exit: no call is made for a later item. In particular, when one item
  came before the failing one, the count query returned 0 for it and its insert did not
  fail, the pass has added exactly one document to the store, that of the first item: a
  store that was empty holds exactly that one.
\<close>

theorem publish_failure_halts:
  assumes "VerifyCredentials_err env = None" and "Dial_err env = None"
    and "ParseURL_result env = Inr (earlier @ item # later)"
    and "tweetLoop env earlier 0 (startup s0) = (Inr n, s)"
    and "ENVIRONMENT env \<noteq> ''development''"
    and "counts_zero env item s" and "post_err env item s = Some e"
  shows "\<exists>s'. tweetFeed env s0 = (Inl (Fatal (message e)), s')
    \<and> tweets s' = tweets s
    \<and> trace s' = trace s @ [Copy, Find (Link item),
         PostTweet (Title item @ [CHR 0x0A] @ Link item), Log FatalLevel (message e) [], Exit 1]
    \<and> (\<forall>first. earlier = [first] \<and> counts_zero env first (startup s0)
           \<and> insert_err env first (startup s0) = None \<longrightarrow>
         tweets s' = tweets s0 @ [document env first (startup s0)]
         \<and> title (document env first (startup s0)) = Title first
         \<and> url (document env first (startup s0)) = Link first)"
proof -
  let ?s' = "s\<lparr>trace := trace s @ [Copy, Find (Link item),
         PostTweet (Title item @ [CHR 0x0A] @ Link item), Log FatalLevel (message e) [], Exit 1]\<rparr>"
  have run: "tweetFeed env s0 = (Inl (Fatal (message e)), ?s')"
    by (simp add: tweetFeed_started[OF assms(1,2,3)] tweetLoop_append assms(4)
        tweetItem_fatal[OF assms(6,5,7)])
  have one: "tweets s = tweets s0 @ [document env first (startup s0)]"
    if f: "earlier = [first]" and z: "counts_zero env first (startup s0)"
      and i: "insert_err env first (startup s0) = None" for first
  proof (cases "post_err env first (startup s0)")
    case (Some e1)
    from assms(4) show ?thesis
      by (simp add: f tweetItem_fatal[OF z assms(5) Some])
  next
    case None
    then have p: "ENVIRONMENT env \<noteq> ''development'' \<longrightarrow> post_err env first (startup s0) = None"
      by simp
    have t: "tweets (startup s0) = tweets s0"
      by (simp add: startup_simp)
    from assms(4) have "s = (startup s0)\<lparr>tweets := tweets (startup s0) @ [document env first (startup s0)],
        trace := trace (startup s0) @ before_insert env first
          @ [Insert (document env first (startup s0)), Close]\<rparr>"
      by (simp add: f tweetItem_stored[OF z p i])
    then have "tweets s = tweets (startup s0) @ [document env first (startup s0)]"
      by simp
    with t show ?thesis by simp
  qed
  have doc: "title (document env first (startup s0)) = Title first"
    "url (document env first (startup s0)) = Link first" for first
    by (simp_all add: document_def)
  show ?thesis
    using run one doc by (intro exI[of _ ?s']) simp
qed

text \<open>
  The theorem at a feed of three new items and an empty store, where the Publisher fails on
  the second and no other call fails: the one document in the store afterwards is that of
  the first item, and the third item is neither posted nor inserted.
\<close>

theorem publish_failure_halts_witness:
  "counts_zero prod_XYZ_post_Y_fails itemX (startup empty_store)
   \<and> insert_err prod_XYZ_post_Y_fails itemX (startup empty_store) = None
   \<and> tweetLoop prod_XYZ_post_Y_fails [itemX] 0 (startup empty_store)
     = (Inr 1, \<lparr>tweets = [\<lparr>title = ''X'', url = ''http://a'', timestamp = 8\<rparr>],
          trace = [VerifyCredentials, Dial, Go_ensureIndex, ParseURL, Copy, Find ''http://a'',
            PostTweet ''X\<newline>http://a'',
            Log DebugLevel ''Tweeted item''
              [(''title'', ''X''), (''url'', ''http://a''), (''tweet'', ''X\<newline>http://a'')],
            Insert \<lparr>title = ''X'', url = ''http://a'', timestamp = 8\<rparr>, Close]\<rparr>)
   \<and> fst (tweetFeed prod_XYZ_post_Y_fails empty_store) = Inl (Fatal ''503 Service Unavailable'')
   \<and> tweets (snd (tweetFeed prod_XYZ_post_Y_fails empty_store))
      = [\<lparr>title = ''X'', url = ''http://a'', timestamp = 8\<rparr>]
   \<and> posts (trace (snd (tweetFeed prod_XYZ_post_Y_fails empty_store)))
      = [''X\<newline>http://a'', ''Y\<newline>http://b'']
   \<and> inserts (trace (snd (tweetFeed prod_XYZ_post_Y_fails empty_store)))
      = [\<lparr>title = ''X'', url = ''http://a'', timestamp = 8\<rparr>]"
proof -
  let ?env = "prod_XYZ_post_Y_fails"
  let ?s = "\<lparr>tweets = [\<lparr>title = ''X'', url = ''http://a'', timestamp = 8\<rparr>],
          trace = [VerifyCredentials, Dial, Go_ensureIndex, ParseURL, Copy, Find ''http://a'',
            PostTweet ''X\<newline>http://a'',
            Log DebugLevel ''Tweeted item''
              [(''title'', ''X''), (''url'', ''http://a''), (''tweet'', ''X\<newline>http://a'')],
            Insert \<lparr>title = ''X'', url = ''http://a'', timestamp = 8\<rparr>, Close]\<rparr>"
  have v: "VerifyCredentials_err ?env = None" and d: "Dial_err ?env = None"
    and p: "ParseURL_result ?env = Inr ([itemX] @ itemY # [itemZ])"
    and m: "ENVIRONMENT ?env \<noteq> ''development''"
    by (simp_all add: world_defs)
  have l: "tweetLoop ?env [itemX] 0 (startup empty_store) = (Inr 1, ?s)"
    by (simp add: run_defs world_defs)
  have z: "counts_zero ?env itemY ?s"
    by (simp add: counts_zero_ok query_err_def recorded_def world_defs)
  have f: "post_err ?env itemY ?s = Some (Error ''503 Service Unavailable'')"
    by (simp add: post_err_def world_defs)
  have zX: "counts_zero ?env itemX (startup empty_store)"
    by (simp add: counts_zero_ok query_err_def recorded_def startup_simp world_defs)
  have iX: "insert_err ?env itemX (startup empty_store) = None"
    by (simp add: insert_err_def world_defs)
  from publish_failure_halts[OF v d p l m z f] obtain s' where
    r: "tweetFeed ?env empty_store = (Inl (Fatal ''503 Service Unavailable''), s')"
    and t: "tweets s' = tweets ?s"
    and e: "trace s' = trace ?s @ [Copy, Find (Link itemY),
         PostTweet (Title itemY @ [CHR 0x0A] @ Link itemY),
         Log FatalLevel ''503 Service Unavailable'' [], Exit 1]"
    by auto
  show ?thesis using zX iX l r t e by (simp add: world_defs)
qed

text \<open>
  C3 as it is written fails, in its last sentence, when the insert of the first item
  fails: with three new items, an empty store, a Publisher that fails on the second item
  and inserts that fail, the first item is posted, \<^verbatim>\<open>tweetFeed\<close> ends in
  \<^verbatim>\<open>log.Fatal\<close> on the second, and the store is empty afterwards.
\<close>

theorem publish_failure_halts_counterexample:
  "\<not> recorded empty_store (Link itemX) \<and> \<not> recorded empty_store (Link itemY)
   \<and> \<not> recorded empty_store (Link itemZ)
   \<and> ParseURL_result prod_XYZ_post_Y_fails_no_insert = Inr [itemX, itemY, itemZ]
   \<and> fst (tweetFeed prod_XYZ_post_Y_fails_no_insert empty_store)
      = Inl (Fatal ''503 Service Unavailable'')
   \<and> posts (trace (snd (tweetFeed prod_XYZ_post_Y_fails_no_insert empty_store)))
      = [''X\<newline>http://a'', ''Y\<newline>http://b'']
   \<and> tweets (snd (tweetFeed prod_XYZ_post_Y_fails_no_insert empty_store)) = []"
  by (simp add: run_defs world_defs)

subsection \<open>C4: a new item in development mode\<close>





subsection \<open>C5: the end-to-end example\<close>

text \<open>
  C5, with the provisos it needs. Outside development mode, with an empty store and the
  feed of \<open>itemX\<close>, X at \<^verbatim>\<open>http://a\<close>, and \<open>itemY\<close>, Y at \<^verbatim>\<open>http://b\<close>, let the
  verification of the credentials and the dial succeed, and let the count query, the post
  and the insert made for each of the two items succeed. Then \<^verbatim>\<open>tweetFeed\<close> makes two
  Publisher calls, with the messages of X and of Y in that order, inserts two documents,
  which are the store afterwards, with those urls and titles, and reports 2.
\<close>

theorem end_to_end_example:
  assumes "ENVIRONMENT env \<noteq> ''development''"
    and "VerifyCredentials_err env = None" and "Dial_err env = None"
    and "ParseURL_result env = Inr [itemX, itemY]"
    and "tweets s = []"
    and "query_err env itemX (startup s) = None" and "post_err env itemX (startup s) = None"
    and "insert_err env itemX (startup s) = None"
    and "tweetItem env itemX (startup s) = (r, s1)"
    and "query_err env itemY s1 = None" and "post_err env itemY s1 = None"
    and "insert_err env itemY s1 = None"
  shows "\<exists>s'. tweetFeed env s = (Inr 2, s')
    \<and> posts (emitted s s') = [''X\<newline>http://a'', ''Y\<newline>http://b'']
    \<and> map url (tweets s') = [''http://a'', ''http://b'']
    \<and> map title (tweets s') = [''X'', ''Y'']
    \<and> inserts (emitted s s') = tweets s'
    \<and> last (trace s') = Log InfoLevel ''2 items were tweeted'' []"
proof -
  define s0 where "s0 = startup s"
  define dX where "dX = document env itemX s0"
  define dY where "dY = document env itemY s1"
  define s2 where "s2 = s1\<lparr>tweets := tweets s1 @ [dY],
       trace := trace s1 @ before_insert env itemY @ [Insert dY, Close]\<rparr>"
  define s3 where
    "s3 = s2\<lparr>trace := trace s2 @ [Log InfoLevel (dec 2 @ '' items were tweeted'') []]\<rparr>"
  have t0: "tweets s0 = []"
    and tr0: "trace s0 = trace s @ [VerifyCredentials, Dial, Go_ensureIndex, ParseURL]"
    using assms(5) by (simp_all add: s0_def startup_simp)
  have udX: "url dX = ''http://a''" and tdX: "title dX = ''X''"
    by (simp_all add: dX_def document_def itemX_def)
  have udY: "url dY = ''http://b''" and tdY: "title dY = ''Y''"
    by (simp_all add: dY_def document_def itemY_def)
  have zX: "counts_zero env itemX s0"
    using t0 assms(6) by (simp add: s0_def counts_zero_ok recorded_def)
  have pX: "ENVIRONMENT env \<noteq> ''development'' \<longrightarrow> post_err env itemX s0 = None"
    using assms(7) by (simp add: s0_def)
  have iX: "insert_err env itemX s0 = None"
    using assms(8) by (simp add: s0_def)
  have s1: "s1 = s0\<lparr>tweets := tweets s0 @ [dX],
       trace := trace s0 @ before_insert env itemX @ [Insert dX, Close]\<rparr>"
    and r: "r = Inr True"
    using assms(9) tweetItem_stored[OF zX pX iX] by (simp_all add: s0_def dX_def)
  have stepX: "tweetItem env itemX s0 = (Inr True, s1)"
    using assms(9) r by (simp add: s0_def)
  have t1: "tweets s1 = [dX]"
    and tr1: "trace s1 = trace s0 @ before_insert env itemX @ [Insert dX, Close]"
    using t0 by (simp_all add: s1)
  have t2: "tweets s2 = [dX, dY]"
    and tr2: "trace s2 = trace s1 @ before_insert env itemY @ [Insert dY, Close]"
    using t1 by (simp_all add: s2_def)
  have zY: "counts_zero env itemY s1"
    using t1 udX assms(10) by (simp add: counts_zero_ok recorded_def itemY_def)
  have pY: "ENVIRONMENT env \<noteq> ''development'' \<longrightarrow> post_err env itemY s1 = None"
    using assms(11) by simp
  have stepY: "tweetItem env itemY s1 = (Inr True, s2)"
    unfolding s2_def dY_def using tweetItem_stored[OF zY pY assms(12)] .
  have loop: "tweetLoop env [itemX, itemY] 0 s0 = (Inr 2, s2)"
    by (simp add: stepX stepY)
  from tweetFeed_started[OF assms(2,3,4), of s] loop
  have run: "tweetFeed env s = (Inr 2, s3)"
    by (simp add: s0_def s3_def)
  have bX: "posts (before_insert env itemX) = [''X\<newline>http://a'']"
    "inserts (before_insert env itemX) = []"
    using assms(1) by (simp_all add: before_insert_def itemX_def)
  have bY: "posts (before_insert env itemY) = [''Y\<newline>http://b'']"
    "inserts (before_insert env itemY) = []"
    using assms(1) by (simp_all add: before_insert_def itemY_def)
  have tr3: "trace s3 = trace s @ ([VerifyCredentials, Dial, Go_ensureIndex, ParseURL]
      @ before_insert env itemX @ [Insert dX, Close]
      @ before_insert env itemY @ [Insert dY, Close]
      @ [Log InfoLevel (dec 2 @ '' items were tweeted'') []])"
    by (simp add: s3_def tr2 tr1 tr0)
  have t3: "tweets s3 = [dX, dY]"
    by (simp add: s3_def t2)
  have em: "emitted s s3 = [VerifyCredentials, Dial, Go_ensureIndex, ParseURL]
      @ before_insert env itemX @ [Insert dX, Close]
      @ before_insert env itemY @ [Insert dY, Close]
      @ [Log InfoLevel (dec 2 @ '' items were tweeted'') []]"
    using emitted_app[OF tr3] .
  have p1: "posts (emitted s s3) = [''X\<newline>http://a'', ''Y\<newline>http://b'']"
    unfolding em by (simp add: posts_append bX bY)
  have p2: "map url (tweets s3) = [''http://a'', ''http://b'']"
    by (simp add: t3 udX udY)
  have p3: "map title (tweets s3) = [''X'', ''Y'']"
    by (simp add: t3 tdX tdY)
  have p4: "inserts (emitted s s3) = tweets s3"
    unfolding em by (simp add: inserts_append bX bY t3)
  have p5: "last (trace s3) = Log InfoLevel ''2 items were tweeted'' []"
    unfolding tr3 by (simp add: dec_2)
  show ?thesis
    by (intro exI[of _ s3] conjI run p1 p2 p3 p4 p5)
qed

text \<open>The theorem in the world where no call fails.\<close>

theorem end_to_end_example_witness:
  "ENVIRONMENT prod_XY \<noteq> ''development''
   \<and> ParseURL_result prod_XY = Inr [itemX, itemY]
   \<and> tweets empty_store = []
   \<and> query_err prod_XY itemX (startup empty_store) = None
   \<and> post_err prod_XY itemX (startup empty_store) = None
   \<and> insert_err prod_XY itemX (startup empty_store) = None
   \<and> query_err prod_XY itemY (snd (tweetItem prod_XY itemX (startup empty_store))) = None
   \<and> post_err prod_XY itemY (snd (tweetItem prod_XY itemX (startup empty_store))) = None
   \<and> insert_err prod_XY itemY (snd (tweetItem prod_XY itemX (startup empty_store))) = None
   \<and> (\<exists>s'. tweetFeed prod_XY empty_store = (Inr 2, s')
        \<and> posts (emitted empty_store s') = [''X\<newline>http://a'', ''Y\<newline>http://b'']
        \<and> map url (tweets s') = [''http://a'', ''http://b'']
        \<and> map title (tweets s') = [''X'', ''Y'']
        \<and> inserts (emitted empty_store s') = tweets s'
        \<and> last (trace s') = Log InfoLevel ''2 items were tweeted'' [])"
proof -
  let ?s1 = "snd (tweetItem prod_XY itemX (startup empty_store))"
  have m: "ENVIRONMENT prod_XY \<noteq> ''development''"
    and v: "VerifyCredentials_err prod_XY = None" and d: "Dial_err prod_XY = None"
    and p: "ParseURL_result prod_XY = Inr [itemX, itemY]"
    and t: "tweets empty_store = []"
    by (simp_all add: world_defs)
  have x: "query_err prod_XY itemX (startup empty_store) = None"
    "post_err prod_XY itemX (startup empty_store) = None"
    "insert_err prod_XY itemX (startup empty_store) = None"
    by (simp_all add: query_err_def post_err_def insert_err_def world_defs)
  have y: "query_err prod_XY itemY ?s1 = None" "post_err prod_XY itemY ?s1 = None"
    "insert_err prod_XY itemY ?s1 = None"
    by (simp_all add: query_err_def post_err_def insert_err_def world_defs)
  have s: "tweetItem prod_XY itemX (startup empty_store)
      = (fst (tweetItem prod_XY itemX (startup empty_store)), ?s1)"
    by simp
  from end_to_end_example[OF m v d p t x s y] m p t x y show ?thesis
    by (intro conjI)
qed

text \<open>
  C5 as it is written fails when a call fails: in the setting of the example, with a first
  insert that returns an error, \<^verbatim>\<open>tweetFeed\<close> makes the two Publisher calls and reports
  2, and the store holds one document, that of Y.
\<close>

theorem end_to_end_example_counterexample:
  "ENVIRONMENT prod_XY_first_insert_fails \<noteq> ''development''
   \<and> ParseURL_result prod_XY_first_insert_fails = Inr [itemX, itemY]
   \<and> tweets empty_store = []
   \<and> fst (tweetFeed prod_XY_first_insert_fails empty_store) = Inr 2
   \<and> posts (trace (snd (tweetFeed prod_XY_first_insert_fails empty_store)))
      = [''X\<newline>http://a'', ''Y\<newline>http://b'']
   \<and> map url (tweets (snd (tweetFeed prod_XY_first_insert_fails empty_store))) = [''http://b'']"
  by (simp add: run_defs world_defs)

subsection \<open>C6: the message\<close>

text \<open>
  C6. Every message that \<^verbatim>\<open>tweetItem\<close> gives to the Publisher, and every \<^verbatim>\<open>tweet\<close>
  field that it logs, is the item's title, one line feed and the item's link, nothing else:
  a function of the title and the link alone. When the item is published, that is when
  \<^verbatim>\<open>tweetItem\<close> returns true, the message is logged once, and outside development mode
  it is given to the Publisher once.
\<close>

theorem message_format:
  "set (posts (emitted s (snd (tweetItem env item s)))) \<subseteq> {Title item @ [CHR 0x0A] @ Link item}
   \<and> set (logged_tweets (emitted s (snd (tweetItem env item s))))
       \<subseteq> {Title item @ [CHR 0x0A] @ Link item}
   \<and> (fst (tweetItem env item s) = Inr True \<longrightarrow>
        posts (emitted s (snd (tweetItem env item s)))
          = (if ENVIRONMENT env = ''development'' then [] else [Title item @ [CHR 0x0A] @ Link item])
        \<and> logged_tweets (emitted s (snd (tweetItem env item s)))
          = [Title item @ [CHR 0x0A] @ Link item])"
proof (cases rule: tweetItem_paths[where env=env and item=item and s=s])
  case skip
  then show ?thesis by (simp add: tweetItem_skip emitted_def)
next
  case (fatal e)
  then show ?thesis by (simp add: tweetItem_fatal emitted_def)
next
  case stored
  then show ?thesis
    by (simp add: tweetItem_stored emitted_def before_insert_def posts_append
        logged_tweets_append)
next
  case (rejected e)
  then show ?thesis
    by (simp add: tweetItem_rejected emitted_def before_insert_def posts_append
        logged_tweets_append)
qed

text \<open>The theorem at \<open>itemX\<close>, published in production mode.\<close>

theorem message_format_witness:
  "fst (tweetItem prod_X itemX empty_store) = Inr True
   \<and> posts (emitted empty_store (snd (tweetItem prod_X itemX empty_store)))
      = [''X\<newline>http://a'']
   \<and> logged_tweets (emitted empty_store (snd (tweetItem prod_X itemX empty_store)))
      = [''X\<newline>http://a'']"
proof -
  have r: "fst (tweetItem prod_X itemX empty_store) = Inr True"
    by (simp add: run_defs world_defs)
  have m: "ENVIRONMENT prod_X \<noteq> ''development''"
    by (simp add: world_defs)
  have x: "Title itemX @ [CHR 0x0A] @ Link itemX = ''X\<newline>http://a''"
    by (simp add: world_defs)
  from message_format[of empty_store prod_X itemX] r m x
  show ?thesis by simp
qed

subsection \<open>C7: credentials first\<close>

text \<open>
  C7. The first call of every \<^verbatim>\<open>tweetFeed\<close> is the verification of the credentials,
  so it comes before every call made for an item. When it fails, \<^verbatim>\<open>tweetFeed\<close> ends in
  \<^verbatim>\<open>log.Fatal\<close> at once: the store is not dialled, queried or changed.
\<close>

theorem credentials_verified_first:
  "(\<exists>rest. emitted s (snd (tweetFeed env s)) = VerifyCredentials # rest)
   \<and> (VerifyCredentials_err env \<noteq> None \<longrightarrow>
        tweetFeed env s =
          (Inl (Fatal ''Could not connect to Twitter''),
           s\<lparr>trace := trace s @ [VerifyCredentials,
                Log FatalLevel ''Could not connect to Twitter'' [], Exit 1]\<rparr>))"
proof (cases "VerifyCredentials_err env")
  case (Some err)
  then show ?thesis
    by (simp add: tweetFeed_def log_Fatal_def emit_def emitted_def)
next
  case v: None
  show ?thesis
  proof (cases "Dial_err env")
    case (Some err)
    with v show ?thesis
      by (simp add: tweetFeed_def log_Fatal_def emit_def emitted_def)
  next
    case d: None
    show ?thesis
    proof (cases "ParseURL_result env")
      case (Inl err)
      with v d show ?thesis
        by (simp add: tweetFeed_def getFeedItems_def log_Fatal_def emit_def emitted_def)
    next
      case (Inr items)
      obtain r s' where l: "tweetLoop env items 0 (startup s) = (r, s')"
        by (cases "tweetLoop env items 0 (startup s)")
      obtain evs where "trace s' = trace (startup s) @ evs"
        using tweetLoop_trace[of env items 0 "startup s"] l by auto
      then have t: "trace s' = trace s @ VerifyCredentials # Dial # Go_ensureIndex # ParseURL # evs"
        by (simp add: startup_simp)
      show ?thesis
        using v l t by (cases r) (simp_all add: tweetFeed_started[OF v d Inr] emitted_def)
    qed
  qed
qed

text \<open>The theorem in a world where the verification fails.\<close>

theorem credentials_verified_first_witness:
  "VerifyCredentials_err prod_X_verify_fails \<noteq> None
   \<and> tweetFeed prod_X_verify_fails empty_store
      = (Inl (Fatal ''Could not connect to Twitter''),
         \<lparr>tweets = [], trace = [VerifyCredentials,
            Log FatalLevel ''Could not connect to Twitter'' [], Exit 1]\<rparr>)"
proof -
  let ?env = "prod_X_verify_fails"
  have v: "VerifyCredentials_err ?env \<noteq> None" by (simp add: world_defs)
  have e: "empty_store\<lparr>trace := trace empty_store @ [VerifyCredentials,
      Log FatalLevel ''Could not connect to Twitter'' [], Exit 1]\<rparr>
    = \<lparr>tweets = [], trace = [VerifyCredentials,
            Log FatalLevel ''Could not connect to Twitter'' [], Exit 1]\<rparr>"
    by (simp add: world_defs)
  from credentials_verified_first[of empty_store ?env] v e show ?thesis by simp
qed

subsection \<open>C8: the session of an item\<close>

text \<open>
  C8 says that the session copied for an item is closed on every path, the one where the
  Publisher fails included. The code does not close it there: outside development mode,
  with a Publisher that returns an error, \<^verbatim>\<open>tweetItem\<close> copies a session and ends the
  process in \<^verbatim>\<open>log.Fatal\<close>, the deferred \<^verbatim>\<open>Close\<close> does not run, and the trace has
  one \<open>Copy\<close> and no \<open>Close\<close>. The session is closed on the paths that return
  (\<open>tweetItem_sessions\<close>).
\<close>

theorem session_left_open:
  "tweetItem prod_X_post_fails itemX empty_store
     = (Inl (Fatal ''i/o timeout''),
        \<lparr>tweets = [], trace = [Copy, Find ''http://a'', PostTweet ''X\<newline>http://a'',
           Log FatalLevel ''i/o timeout'' [], Exit 1]\<rparr>)
   \<and> opened (trace (snd (tweetItem prod_X_post_fails itemX empty_store))) = 1
   \<and> closed (trace (snd (tweetItem prod_X_post_fails itemX empty_store))) = 0"
  by (simp add: run_defs world_defs opened_def closed_def)

subsection \<open>C9: a count query that fails\<close>

text \<open>
  C9, as the code has it. When the count query for an item fails, its error has no effect
  of its own: \<^verbatim>\<open>tweetItem\<close> tests the number returned beside the error. When that
  number is positive the item is skipped. When it is 0 the item is not skipped: outside
  development mode it is posted, also when its url is already recorded, and when the post
  succeeds or is left out the document is inserted and \<^verbatim>\<open>tweetItem\<close> returns true. In
  both cases the process ends only on an error of the Publisher, never on the failed query.
\<close>

theorem failed_query_is_discarded:
  assumes "query_err env item s = Some err"
  shows "(0 < seen_count env item s \<longrightarrow>
         tweetItem env item s =
           (Inr False, s\<lparr>trace := trace s @ [Copy, Find (Link item),
              Log DebugLevel ''Item already exists'' [(''url'', Link item)], Close]\<rparr>))
    \<and> (seen_count env item s = 0 \<longrightarrow>
         fst (tweetItem env item s) \<noteq> Inr False
         \<and> (ENVIRONMENT env \<noteq> ''development'' \<longrightarrow>
              posts (emitted s (snd (tweetItem env item s)))
                = [Title item @ [CHR 0x0A] @ Link item])
         \<and> ((ENVIRONMENT env \<noteq> ''development'' \<longrightarrow> post_err env item s = None) \<longrightarrow>
              fst (tweetItem env item s) = Inr True
              \<and> inserts (emitted s (snd (tweetItem env item s))) = [document env item s]))
    \<and> (\<forall>f. fst (tweetItem env item s) = Inl f \<longrightarrow>
         ENVIRONMENT env \<noteq> ''development''
         \<and> (\<exists>e. post_err env item s = Some e \<and> f = Fatal (message e)))"
proof (cases "counts_zero env item s")
  case False
  then show ?thesis
    by (simp add: tweetItem_skip counts_zero_def)
next
  case z: True
  then have c: "seen_count env item s = 0" by (simp add: counts_zero_def)
  have b: "inserts (before_insert env item) = []"
    "posts (before_insert env item)
      = (if ENVIRONMENT env = ''development'' then [] else [Title item @ [CHR 0x0A] @ Link item])"
    by (simp_all add: before_insert_def)
  show ?thesis
  proof (cases "ENVIRONMENT env \<noteq> ''development'' \<and> post_err env item s \<noteq> None")
    case True
    then obtain e where e: "post_err env item s = Some e"
      and m: "ENVIRONMENT env \<noteq> ''development''"
      by auto
    show ?thesis using c e m by (simp add: tweetItem_fatal[OF z m e] emitted_def)
  next
    case False
    then have p: "ENVIRONMENT env \<noteq> ''development'' \<longrightarrow> post_err env item s = None" by auto
    show ?thesis
    proof (cases "insert_err env item s")
      case None
      show ?thesis using b c p
        by (simp add: tweetItem_stored[OF z p None] emitted_def posts_append inserts_append)
    next
      case (Some e)
      show ?thesis using b c p
        by (simp add: tweetItem_rejected[OF z p Some] emitted_def posts_append inserts_append)
    qed
  qed
qed

text \<open>
  The theorem at \<open>itemX\<close>, whose document is in the store, with a query that fails and
  returns no count: the item is posted and inserted a second time.
\<close>

theorem failed_query_is_discarded_witness:
  "query_err prod_X_query_fails itemX store_with_X = Some (Error ''i/o timeout'')
   \<and> seen_count prod_X_query_fails itemX store_with_X = 0
   \<and> recorded store_with_X (Link itemX)
   \<and> fst (tweetItem prod_X_query_fails itemX store_with_X) = Inr True
   \<and> posts (emitted store_with_X (snd (tweetItem prod_X_query_fails itemX store_with_X)))
      = [''X\<newline>http://a'']
   \<and> inserts (emitted store_with_X (snd (tweetItem prod_X_query_fails itemX store_with_X)))
      = [\<lparr>title = ''X'', url = ''http://a'', timestamp = 4\<rparr>]"
proof -
  let ?env = "prod_X_query_fails"
  have q: "query_err ?env itemX store_with_X = Some (Error ''i/o timeout'')"
    by (simp add: query_err_def world_defs)
  have c: "seen_count ?env itemX store_with_X = 0"
    using seen_count_err[OF q] by (simp add: world_defs)
  have r: "recorded store_with_X (Link itemX)"
    by (simp add: recorded_def world_defs)
  have m: "ENVIRONMENT ?env \<noteq> ''development''"
    by (simp add: world_defs)
  have p: "post_err ?env itemX store_with_X = None"
    by (simp add: post_err_def world_defs)
  have d: "document ?env itemX store_with_X = \<lparr>title = ''X'', url = ''http://a'', timestamp = 4\<rparr>"
    by (simp add: document_def before_insert_def world_defs)
  have x: "Title itemX @ [CHR 0x0A] @ Link itemX = ''X\<newline>http://a''"
    by (simp add: world_defs)
  from failed_query_is_discarded[OF q] q c r m p d x show ?thesis by simp
qed

text \<open>
  C9 as it is written fails when the failed query returns a positive number beside its
  error: the store is empty, the query for \<open>itemX\<close> returns 3 and an error, and
  \<^verbatim>\<open>tweetItem\<close> skips the item, with no post and no insert.
\<close>

theorem failed_query_is_discarded_counterexample:
  "query_err prod_X_query_fails_with_3 itemX empty_store = Some (Error ''i/o timeout'')
   \<and> \<not> recorded empty_store (Link itemX)
   \<and> tweetItem prod_X_query_fails_with_3 itemX empty_store
      = (Inr False,
         \<lparr>tweets = [], trace = [Copy, Find ''http://a'',
            Log DebugLevel ''Item already exists'' [(''url'', ''http://a'')], Close]\<rparr>)
   \<and> posts (trace (snd (tweetItem prod_X_query_fails_with_3 itemX empty_store))) = []
   \<and> inserts (trace (snd (tweetItem prod_X_query_fails_with_3 itemX empty_store))) = []"
  by (simp add: run_defs query_err_def world_defs)

subsection \<open>C10: an insert that fails\<close>



end
